theory Spec2Isabelle
  imports Complex_Main "HOL-Library.Sublist" "HOL-Library.Multiset"
begin

text \<open>
  A shallow embedding of the content manager's core: the heading extractor and the
  frontmatter parser of \<open>markdownUtils.ts\<close>, the document loader of \<open>fileUtils.ts\<close> and
  the searches of \<open>searchUtils.ts\<close>. The functions keep the names they have in the
  source. The record fields \<open>text\<close>, \<open>id\<close>, \<open>size\<close> and \<open>file\<close> are written \<open>text_of\<close>,
  \<open>id_of\<close>, \<open>size_of\<close> and \<open>file_of\<close>, and \<open>String.prototype.includes\<close> is
  \<open>includes_str\<close>. The file system, the gray-matter library and the Fuse.js library are
  parameters of the functions that call them.
\<close>

section \<open>JavaScript strings\<close>

text \<open>
  A string is a list of code units. The development covers the code units 0 to 255
  (ASCII and Latin-1), which is what a \<^typ>\<open>char\<close> holds. The character classes are
  those of ECMAScript restricted to that range: \<open>\s\<close> is TAB, LF, VT, FF, CR, SPACE and
  NBSP; a line terminator is LF or CR; \<open>\w\<close> is \<open>[A-Za-z0-9_]\<close>; \<open>\d\<close> is \<open>[0-9]\<close>.
\<close>

definition isLineTerminator :: "char \<Rightarrow> bool" where
  "isLineTerminator c = (c = CHR 0x0A \<or> c = CHR 0x0D)"

definition isWhiteSpace :: "char \<Rightarrow> bool" where
  "isWhiteSpace c =
     (c = CHR 0x09 \<or> c = CHR 0x0A \<or> c = CHR 0x0B \<or> c = CHR 0x0C \<or> c = CHR 0x0D
      \<or> c = CHR 0x20 \<or> c = CHR 0xA0)"

definition isDigit :: "char \<Rightarrow> bool" where
  "isDigit c = (let n = (of_char c :: nat) in 48 \<le> n \<and> n \<le> 57)"

definition isLowerAscii :: "char \<Rightarrow> bool" where
  "isLowerAscii c = (let n = (of_char c :: nat) in 97 \<le> n \<and> n \<le> 122)"

definition isUpperAscii :: "char \<Rightarrow> bool" where
  "isUpperAscii c = (let n = (of_char c :: nat) in 65 \<le> n \<and> n \<le> 90)"

definition isWordChar :: "char \<Rightarrow> bool" where
  "isWordChar c = (isLowerAscii c \<or> isUpperAscii c \<or> isDigit c \<or> c = CHR ''_'')"

text \<open>\<open>String.prototype.toLowerCase\<close>, one code unit at a time: \<open>A-Z\<close> and the Latin-1
  capitals U+00C0 to U+00DE (the multiplication sign U+00D7 apart) move up by 32.\<close>

definition toLowerChar :: "char \<Rightarrow> char" where
  "toLowerChar c =
     (let n = (of_char c :: nat)
      in if (65 \<le> n \<and> n \<le> 90) \<or> (192 \<le> n \<and> n \<le> 222 \<and> n \<noteq> 215)
         then char_of (n + 32) else c)"

definition toLowerCase :: "string \<Rightarrow> string" where
  "toLowerCase s = map toLowerChar s"

text \<open>\<open>String.prototype.trim\<close>.\<close>

definition trim :: "string \<Rightarrow> string" where
  "trim s = rev (dropWhile isWhiteSpace (rev (dropWhile isWhiteSpace s)))"

text \<open>\<open>s.startsWith(p)\<close>, \<open>s.endsWith(p)\<close> and \<open>s.includes(q)\<close>.\<close>

definition startsWith :: "string \<Rightarrow> string \<Rightarrow> bool" where
  "startsWith s p = (take (length p) s = p)"

definition endsWith :: "string \<Rightarrow> string \<Rightarrow> bool" where
  "endsWith s p = (length p \<le> length s \<and> drop (length s - length p) s = p)"

fun includes_str :: "string \<Rightarrow> string \<Rightarrow> bool" where
  "includes_str [] q = (q = [])"
| "includes_str (c # cs) q = (startsWith (c # cs) q \<or> includes_str cs q)"

text \<open>\<open>s.split('\n')\<close>: the pieces between line feeds; never an empty array.\<close>

fun split_nl :: "string \<Rightarrow> string list" where
  "split_nl [] = [[]]"
| "split_nl (c # cs) =
     (if c = CHR 0x0A then [] # split_nl cs
      else (case split_nl cs of [] \<Rightarrow> [[c]] | l # ls \<Rightarrow> (c # l) # ls))"

text \<open>\<open>s.indexOf(c)\<close>, with \<open>None\<close> for \<open>-1\<close>.\<close>

fun indexOf :: "string \<Rightarrow> char \<Rightarrow> nat option" where
  "indexOf [] c = None"
| "indexOf (x # xs) c =
     (if x = c then Some 0 else (case indexOf xs c of None \<Rightarrow> None | Some i \<Rightarrow> Some (Suc i)))"

text \<open>\<open>s.slice(1, -1)\<close>.\<close>

definition slice_1_m1 :: "string \<Rightarrow> string" where
  "slice_1_m1 s = take (length s - 2) (drop 1 s)"

text \<open>Decimal rendering of a natural number, as a template literal does it.\<close>

definition digit_char :: "nat \<Rightarrow> char" where
  "digit_char d = char_of (48 + d)"

fun show_nat :: "nat \<Rightarrow> string" where
  "show_nat n = (if n < 10 then [digit_char n] else show_nat (n div 10) @ [digit_char (n mod 10)])"

declare show_nat.simps [simp del]

section \<open>Heading extractor (markdownUtils.ts)\<close>

record heading =
  level :: nat
  text_of :: string
  id_of :: string

text \<open>
  The slug: \<open>text.toLowerCase().replace(/[^\w\s-]/g, '').replace(/\s+/g, '-')\<close>.
  \<open>collapse_ws\<close> is the second replacement; its flag says that the previous code unit
  belonged to the whitespace run already replaced.
\<close>

fun collapse_ws :: "bool \<Rightarrow> string \<Rightarrow> string" where
  "collapse_ws inrun [] = []"
| "collapse_ws inrun (c # cs) =
     (if isWhiteSpace c then (if inrun then collapse_ws True cs else CHR ''-'' # collapse_ws True cs)
      else c # collapse_ws False cs)"

definition slug :: "string \<Rightarrow> string" where
  "slug t =
     collapse_ws False
       (filter (\<lambda>c. isWordChar c \<or> isWhiteSpace c \<or> c = CHR ''-'') (toLowerCase t))"

definition make_heading :: "nat \<Rightarrow> string \<Rightarrow> heading" where
  "make_heading k g = \<lparr>level = k, text_of = trim g, id_of = slug (trim g)\<rparr>"

text \<open>The largest index whose element satisfies \<open>P\<close>.\<close>

fun last_index :: "('a \<Rightarrow> bool) \<Rightarrow> 'a list \<Rightarrow> nat option" where
  "last_index P [] = None"
| "last_index P (x # xs) =
     (case last_index P xs of Some i \<Rightarrow> Some (Suc i) | None \<Rightarrow> if P x then Some 0 else None)"

text \<open>
  One attempt of \<open>/^(#{1,6})\s+(.+)$/gm\<close> at a position where \<open>^\<close> holds; \<open>s\<close> is the
  input from that position on. The result is the level (the length of group 1), group 2
  and the length of the whole match.

  \<open>#{1,6}\<close> must be followed by whitespace, so it takes the whole run of \<open>#\<close>, which has
  1 to 6 elements. \<open>\s+\<close> is greedy and takes the whole whitespace run, line terminators
  included. When a code unit follows the run, it is no line terminator and \<open>(.+)\<close> takes
  the rest of its line. When the run reaches the end of the input, \<open>\s+\<close> gives code units
  back, one at a time but never its first, until \<open>(.+)\<close> finds one that is no line
  terminator.
\<close>

definition match_heading :: "string \<Rightarrow> (nat \<times> string \<times> nat) option" where
  "match_heading s =
     (let k = length (takeWhile (\<lambda>c. c = CHR ''#'') s);
          r = drop k s;
          w = takeWhile isWhiteSpace r;
          t = dropWhile isWhiteSpace r
      in if k < 1 \<or> 6 < k \<or> w = [] then None
         else if t \<noteq> [] then
           (let g = takeWhile (\<lambda>c. \<not> isLineTerminator c) t
            in Some (k, g, k + length w + length g))
         else
           (case last_index (\<lambda>c. \<not> isLineTerminator c) (tl w) of
              None \<Rightarrow> None
            | Some i \<Rightarrow>
                (let g = takeWhile (\<lambda>c. \<not> isLineTerminator c) (drop (Suc i) w)
                 in Some (k, g, k + Suc i + length g))))"

text \<open>
  The \<open>while ((match = headingRegex.exec(content)) !== null)\<close> loop. \<open>skip\<close> counts the
  code units of the last match still to pass (the regex resumes at \<open>lastIndex\<close>), and
  \<open>bol\<close> says whether \<open>^\<close> holds here: at the start of the input and after a line
  terminator.
\<close>

fun scan_headings :: "nat \<Rightarrow> bool \<Rightarrow> string \<Rightarrow> heading list" where
  "scan_headings skip bol [] = []"
| "scan_headings skip bol (c # cs) =
     (if 0 < skip then scan_headings (skip - 1) (isLineTerminator c) cs
      else if bol then
        (case match_heading (c # cs) of
           None \<Rightarrow> scan_headings 0 (isLineTerminator c) cs
         | Some (k, g, n) \<Rightarrow> make_heading k g # scan_headings (n - 1) (isLineTerminator c) cs)
      else scan_headings 0 (isLineTerminator c) cs)"

definition extractHeadings :: "string \<Rightarrow> heading list" where
  "extractHeadings content = scan_headings 0 True content"

text \<open>\<open>generateTableOfContents\<close>: one list entry per heading, a link to \<open>#id\<close>.\<close>

definition toc_entry :: "heading \<Rightarrow> string" where
  "toc_entry h =
     concat (replicate (level h - 1) ''  '') @ ''- ['' @ text_of h @ ''](#'' @ id_of h @ '')''"

fun join_nl :: "string list \<Rightarrow> string" where
  "join_nl [] = []"
| "join_nl [x] = x"
| "join_nl (x # y # ys) = x @ ''\<newline>'' @ join_nl (y # ys)"

definition generateTableOfContents :: "string \<Rightarrow> string option" where
  "generateTableOfContents doc =
     (let headings = extractHeadings doc
      in if length headings = 0 then None
         else Some (''## Table of Contents\<newline>\<newline>'' @ join_nl (map toc_entry headings)))"

section \<open>Frontmatter parser (markdownUtils.ts)\<close>

text \<open>
  The values \<open>parseSimpleYaml\<close> stores: booleans, \<open>null\<close>, numbers and strings. A number
  is kept as the exact rational that \<open>parseInt\<close> or \<open>parseFloat\<close> reads; the rounding to
  a double is not part of the development.
\<close>

datatype yaml_value = YBool bool | YNull | YNumber rat | YString string

definition digit_val :: "char \<Rightarrow> nat" where
  "digit_val c = of_char c - 48"

definition parseInt10 :: "string \<Rightarrow> nat" where
  "parseInt10 s = foldl (\<lambda>n c. 10 * n + digit_val c) 0 s"

text \<open>\<open>/^\d+$/.test(v)\<close> and \<open>/^\d+\.\d+$/.test(v)\<close>, following the greedy match.\<close>

definition test_int :: "string \<Rightarrow> bool" where
  "test_int v = (takeWhile isDigit v \<noteq> [] \<and> dropWhile isDigit v = [])"

definition test_float :: "string \<Rightarrow> bool" where
  "test_float v =
     (takeWhile isDigit v \<noteq> [] \<and>
      (case dropWhile isDigit v of
         [] \<Rightarrow> False
       | c # b \<Rightarrow> c = CHR ''.'' \<and> takeWhile isDigit b \<noteq> [] \<and> dropWhile isDigit b = []))"

text \<open>\<open>parseFloat\<close> on a string that passed \<open>test_float\<close>.\<close>

definition parseFloat :: "string \<Rightarrow> rat" where
  "parseFloat v =
     (let a = takeWhile isDigit v; b = drop (Suc (length a)) v
      in of_nat (parseInt10 a) + of_nat (parseInt10 b) / 10 ^ length b)"

definition infer_value :: "string \<Rightarrow> yaml_value" where
  "infer_value v =
     (if v = ''true'' then YBool True
      else if v = ''false'' then YBool False
      else if v = ''null'' then YNull
      else if test_int v then YNumber (of_nat (parseInt10 v))
      else if test_float v then YNumber (parseFloat v)
      else if (startsWith v [CHR 0x22] \<and> endsWith v [CHR 0x22])
            \<or> (startsWith v [CHR 0x27] \<and> endsWith v [CHR 0x27])
      then YString (slice_1_m1 v)
      else YString v)"

text \<open>
  The body of the \<open>for (const line of lines)\<close> loop up to the assignment: \<open>None\<close> where
  the loop continues with the next line (blank line, comment, no colon).
\<close>

definition parse_line :: "string \<Rightarrow> (string \<times> yaml_value) option" where
  "parse_line line =
     (let trimmed = trim line
      in if trimmed = [] \<or> startsWith trimmed ''#'' then None
         else (case indexOf trimmed (CHR '':'') of
                 None \<Rightarrow> None
               | Some i \<Rightarrow> Some (trim (take i trimmed), infer_value (trim (drop (Suc i) trimmed)))))"

text \<open>
  \<open>result[key] = value\<close> on the object that started as \<open>{}\<close>. The object is its own
  properties and a flag saying whether it still has \<open>Object.prototype\<close> as its prototype.
  The assignment creates or overwrites an own property, with one exception of the
  language: while the prototype is there, the name \<open>__proto__\<close> reaches the accessor
  inherited from it, whose setter ignores a boolean, a number or a string and, given
  \<open>null\<close>, removes the prototype. No own property is created in either case.
\<close>

type_synonym yaml_object = "(string \<rightharpoonup> yaml_value) \<times> bool"

definition assign_prop :: "yaml_object \<Rightarrow> string \<Rightarrow> yaml_value \<Rightarrow> yaml_object" where
  "assign_prop obj key v =
     (if key = ''__proto__'' \<and> snd obj then (fst obj, v \<noteq> YNull)
      else ((fst obj)(key \<mapsto> v), snd obj))"

definition yaml_step :: "yaml_object \<Rightarrow> string \<Rightarrow> yaml_object" where
  "yaml_step obj line =
     (case parse_line line of None \<Rightarrow> obj | Some (key, v) \<Rightarrow> assign_prop obj key v)"

definition parseSimpleYaml :: "string \<Rightarrow> (string \<rightharpoonup> yaml_value)" where
  "parseSimpleYaml yaml = fst (foldl yaml_step (Map.empty, True) (split_nl yaml))"

text \<open>
  \<open>content.match(/^---\s*\n([\s\S]*?)\n---\s*\n/)\<close>, in the order in which the
  backtracking matcher tries the alternatives.

  \<open>close_at s\<close> is \<open>\n---\s*\n\<close> at the start of \<open>s\<close>: the greedy \<open>\s*\<close> takes the whole
  whitespace run and gives back down to the last line feed of the run. The result is the
  input after the match.
\<close>

definition close_at :: "string \<Rightarrow> string option" where
  "close_at s =
     (if startsWith s ''\<newline>---'' then
        (let t = drop 4 s; w = takeWhile isWhiteSpace t
         in case last_index (\<lambda>c. c = CHR 0x0A) w of
              None \<Rightarrow> None
            | Some i \<Rightarrow> Some (drop (Suc i) t))
      else None)"

text \<open>The lazy \<open>([\s\S]*?)\<close>: the shortest group after which \<open>close_at\<close> succeeds. The
  result is the group and the input after the match.\<close>

fun find_close :: "string \<Rightarrow> (string \<times> string) option" where
  "find_close [] = None"
| "find_close (c # cs) =
     (case close_at (c # cs) of
        Some rest \<Rightarrow> Some ([], rest)
      | None \<Rightarrow> (case find_close cs of None \<Rightarrow> None | Some (g, rest) \<Rightarrow> Some (c # g, rest)))"

text \<open>The greedy \<open>\s*\<close> after the opening \<open>---\<close> must stop before a line feed; \<open>js\<close> are
  the positions of the line feeds of the whitespace run, the last one first.\<close>

fun try_open :: "nat list \<Rightarrow> string \<Rightarrow> (string \<times> string) option" where
  "try_open [] r = None"
| "try_open (j # js) r =
     (case find_close (drop (Suc j) r) of Some m \<Rightarrow> Some m | None \<Rightarrow> try_open js r)"

definition match_frontmatter :: "string \<Rightarrow> (string \<times> string) option" where
  "match_frontmatter content =
     (if startsWith content ''---'' then
        (let r = drop 3 content; w = takeWhile isWhiteSpace r
         in try_open (rev (filter (\<lambda>j. w ! j = CHR 0x0A) [0..<length w])) r)
      else None)"

text \<open>
  \<open>extractFrontmatter\<close>: the pair of \<open>frontmatter\<close> and \<open>content\<close>. Nothing in the
  \<open>try\<close> block throws (\<open>parseSimpleYaml\<close> is total on strings), so the \<open>catch\<close> branch has
  no counterpart.
\<close>

definition extractFrontmatter :: "string \<Rightarrow> (string \<rightharpoonup> yaml_value) \<times> string" where
  "extractFrontmatter content =
     (case match_frontmatter content of
        None \<Rightarrow> (Map.empty, content)
      | Some (yamlContent, rest) \<Rightarrow> (parseSimpleYaml yamlContent, rest))"

section \<open>Document loader (fileUtils.ts)\<close>

text \<open>
  What the gray-matter library hands back as frontmatter data: a plain object, here the
  list of its entries in the order of \<open>Object.entries\<close>, whose values are any YAML value.
\<close>

datatype jvalue =
    JString string
  | JNumber rat
  | JBool bool
  | JNull
  | JDate int
  | JArray "jvalue list"
  | JObject "(string \<times> jvalue) list"

record ContentFile =
  path :: string
  name :: string
  content :: string
  frontmatter :: "(string \<times> jvalue) list option"
  lastModified :: int
  size_of :: nat

text \<open>\<open>lastModified\<close> is the \<open>Date\<close> as its time value in milliseconds; \<open>frontmatter\<close>
  is \<open>None\<close> where the source leaves it \<open>undefined\<close>.\<close>

record Stats =
  mtime :: int
  st_size :: nat

datatype error = ReadError | ValidationError

text \<open>\<open>path.basename\<close> and \<open>path.extname\<close> on POSIX paths.\<close>

definition basename :: "string \<Rightarrow> string" where
  "basename p =
     rev (takeWhile (\<lambda>c. c \<noteq> CHR ''/'') (dropWhile (\<lambda>c. c = CHR ''/'') (rev p)))"

definition extname :: "string \<Rightarrow> string" where
  "extname p =
     (let b = basename p
      in case last_index (\<lambda>c. c = CHR ''.'') b of
           None \<Rightarrow> []
         | Some i \<Rightarrow> if i = 0 then [] else drop i b)"

text \<open>
  \<open>readContentFile\<close>. The file system is the two partial functions \<open>readFile\<close> and \<open>stat\<close>
  (\<open>None\<close> where the call rejects), and \<open>matter\<close> is the gray-matter library: the data and
  the content it returns for a text.
\<close>

definition readContentFile ::
  "(string \<Rightarrow> (string \<times> jvalue) list \<times> string) \<Rightarrow> (string \<rightharpoonup> string) \<Rightarrow> (string \<rightharpoonup> Stats)
     \<Rightarrow> string \<Rightarrow> error + ContentFile" where
  "readContentFile matter readFile stat filePath =
     (case readFile filePath of
        None \<Rightarrow> Inl ReadError
      | Some text \<Rightarrow>
          (case stat filePath of
             None \<Rightarrow> Inl ReadError
           | Some stats \<Rightarrow>
               (let md = (endsWith filePath ''.md'' \<or> endsWith filePath ''.markdown'');
                    parsed = matter text
                in Inr \<lparr>path = filePath,
                        name = basename filePath,
                        content = (if md then snd parsed else text),
                        frontmatter = (if md then Some (fst parsed) else None),
                        lastModified = mtime stats,
                        size_of = st_size stats\<rparr>)))"

definition isMarkdownFile :: "string \<Rightarrow> bool" where
  "isMarkdownFile filename =
     (let ext = toLowerCase (extname filename)
      in ext \<in> set [''.md'', ''.markdown'', ''.mdx''])"

text \<open>The \<open>for (const filePath of filePaths) { try { ... } catch { continue } }\<close> loop of
  the three searches: \<open>loaded\<close> holds, for every path found, what \<open>readContentFile\<close>
  returned, and a failed read is passed over.\<close>

fun collect_files :: "(error + ContentFile) list \<Rightarrow> ContentFile list" where
  "collect_files [] = []"
| "collect_files (Inl e # rs) = collect_files rs"
| "collect_files (Inr f # rs) = f # collect_files rs"

section \<open>Search and ranking\<close>

text \<open>A score is an exact rational: 0.4 is \<open>2/5\<close>, 0.1 is \<open>1/10\<close>, 0.2 is \<open>1/5\<close>. The
  rounding of the additions to doubles is not part of the development.\<close>

record SearchResult =
  file_of :: ContentFile
  score :: rat
  matches :: "string list"

record NoteSearchOptions =
  query :: string
  includeContent :: bool
  maxResults :: int
  fuzzy :: bool

text \<open>\<open>xs.slice(0, n)\<close>: a negative \<open>n\<close> counts from the end.\<close>

definition slice0 :: "'a list \<Rightarrow> int \<Rightarrow> 'a list" where
  "slice0 xs n = (if n < 0 then take (nat (int (length xs) + n)) xs else take (nat n) xs)"

subsection \<open>Exact strategy\<close>

definition search_filename :: "string \<Rightarrow> ContentFile \<Rightarrow> string list \<times> rat \<Rightarrow> string list \<times> rat" where
  "search_filename queryLower f st =
     (if includes_str (toLowerCase (name f)) queryLower
      then (fst st @ [''Filename: '' @ name f], snd st + 4 / 10)
      else st)"

text \<open>The loop over \<open>contentLines\<close>, from index \<open>i\<close> on. An empty line is falsy and is
  passed over by \<open>line && ...\<close>.\<close>

fun search_lines :: "string \<Rightarrow> nat \<Rightarrow> string list \<Rightarrow> string list \<times> rat \<Rightarrow> string list \<times> rat" where
  "search_lines queryLower i [] st = st"
| "search_lines queryLower i (line # ls) st =
     search_lines queryLower (Suc i) ls
       (if line \<noteq> [] \<and> includes_str (toLowerCase line) queryLower
        then (fst st @ [''Line '' @ show_nat (i + 1) @ '': '' @ trim line], snd st + 1 / 10)
        else st)"

text \<open>The loop over \<open>Object.entries(file.frontmatter)\<close>.\<close>

fun search_entries :: "string \<Rightarrow> (string \<times> jvalue) list \<Rightarrow> string list \<times> rat \<Rightarrow> string list \<times> rat" where
  "search_entries queryLower [] st = st"
| "search_entries queryLower ((key, v) # es) st =
     search_entries queryLower es
       (case v of
          JString s \<Rightarrow>
            if includes_str (toLowerCase s) queryLower
            then (fst st @ [key @ '': '' @ s], snd st + 2 / 10)
            else st
        | _ \<Rightarrow> st)"

text \<open>The body of \<open>for (const file of files)\<close>: the result pushed for \<open>f\<close>, if any.\<close>

definition exact_file :: "string \<Rightarrow> bool \<Rightarrow> ContentFile \<Rightarrow> SearchResult option" where
  "exact_file queryLower inc f =
     (let st1 = search_filename queryLower f ([], 0);
          st2 = search_lines queryLower 0 (split_nl (content f)) st1;
          st3 = (case frontmatter f of None \<Rightarrow> st2 | Some fm \<Rightarrow> search_entries queryLower fm st2)
      in if length (fst st3) > 0
         then Some \<lparr>file_of = (if inc then f else f\<lparr>content := []\<rparr>),
                    score = min (snd st3) 1,
                    matches = take 5 (fst st3)\<rparr>
         else None)"

fun exact_loop :: "string \<Rightarrow> bool \<Rightarrow> ContentFile list \<Rightarrow> SearchResult list" where
  "exact_loop queryLower inc [] = []"
| "exact_loop queryLower inc (f # fs) =
     (case exact_file queryLower inc f of
        None \<Rightarrow> exact_loop queryLower inc fs
      | Some r \<Rightarrow> r # exact_loop queryLower inc fs)"

text \<open>\<open>results.sort((a, b) => b.score - a.score)\<close>: \<open>Array.prototype.sort\<close> is stable, so
  this is the stable sort by descending score, here the insertion sort \<^const>\<open>sort_key\<close>
  on the negated score.\<close>

definition performExactSearch :: "ContentFile list \<Rightarrow> string \<Rightarrow> int \<Rightarrow> bool \<Rightarrow> SearchResult list" where
  "performExactSearch files q maxRes inc =
     slice0 (sort_key (\<lambda>r. - score r) (exact_loop (toLowerCase q) inc files)) maxRes"

subsection \<open>Fuzzy strategy\<close>

text \<open>
  One result of the Fuse.js library: the item, its score (\<open>None\<close> for \<open>undefined\<close>) and
  its matches, each a key and a value. The library itself is a parameter \<open>fuse\<close> of the
  search: \<open>fuse files q limit\<close> stands for
  \<open>new Fuse(files, fuseOptions).search(q, { limit })\<close>.
\<close>

record FuseResult =
  item :: ContentFile
  fuse_score :: "rat option"
  fuse_matches :: "(string \<times> jvalue) list option"

fun match_lines :: "(string \<times> jvalue) list \<Rightarrow> string list" where
  "match_lines [] = []"
| "match_lines ((key, v) # ms) =
     (case v of
        JString s \<Rightarrow>
          (key @ '': '' @ (if length s > 100 then take 100 s @ ''...'' else s)) # match_lines ms
      | _ \<Rightarrow> match_lines ms)"

definition extractMatches :: "(string \<times> jvalue) list \<Rightarrow> string list" where
  "extractMatches fuseMatches = take 5 (match_lines fuseMatches)"

definition fuzzy_result :: "bool \<Rightarrow> FuseResult \<Rightarrow> SearchResult" where
  "fuzzy_result inc r =
     \<lparr>file_of = (if inc then item r else (item r)\<lparr>content := []\<rparr>),
      score = 1 - (case fuse_score r of None \<Rightarrow> 0 | Some s \<Rightarrow> s),
      matches = extractMatches (case fuse_matches r of None \<Rightarrow> [] | Some ms \<Rightarrow> ms)\<rparr>"

definition performFuzzySearch ::
  "(ContentFile list \<Rightarrow> string \<Rightarrow> int \<Rightarrow> FuseResult list) \<Rightarrow> ContentFile list \<Rightarrow> string \<Rightarrow> int \<Rightarrow> bool
     \<Rightarrow> SearchResult list" where
  "performFuzzySearch fuse files q maxRes inc = map (fuzzy_result inc) (fuse files q maxRes)"

subsection \<open>searchNotes\<close>

text \<open>\<open>parseWithSchema(NoteSearchOptionsSchema, options)\<close>: the query has at least one
  character and \<open>maxResults\<close> is a positive integer, or the call throws.\<close>

definition parseWithSchema :: "NoteSearchOptions \<Rightarrow> error + NoteSearchOptions" where
  "parseWithSchema options =
     (if length (query options) < 1 \<or> maxResults options \<le> 0 then Inl ValidationError
      else Inr options)"

definition searchNotes ::
  "(ContentFile list \<Rightarrow> string \<Rightarrow> int \<Rightarrow> FuseResult list) \<Rightarrow> (error + ContentFile) list
     \<Rightarrow> NoteSearchOptions \<Rightarrow> error + SearchResult list" where
  "searchNotes fuse loaded options =
     (case parseWithSchema options of
        Inl e \<Rightarrow> Inl e
      | Inr v \<Rightarrow>
          (let files = collect_files loaded;
               maxRes = (if maxResults v = 0 then 10 else maxResults v);
               inc = (includeContent v \<or> True)
           in if fuzzy v then Inr (performFuzzySearch fuse files (query v) maxRes inc)
              else Inr (performExactSearch files (query v) maxRes inc)))"

subsection \<open>Tag and date-range filters\<close>

text \<open>The truthiness of \<open>file.frontmatter?.tags\<close>.\<close>

fun truthy :: "jvalue option \<Rightarrow> bool" where
  "truthy None = False"
| "truthy (Some (JString s)) = (s \<noteq> [])"
| "truthy (Some (JNumber n)) = (n \<noteq> 0)"
| "truthy (Some (JBool b)) = b"
| "truthy (Some JNull) = False"
| "truthy (Some (JDate d)) = True"
| "truthy (Some (JArray xs)) = True"
| "truthy (Some (JObject es)) = True"

definition tags_field :: "ContentFile \<Rightarrow> jvalue option" where
  "tags_field f = (case frontmatter f of None \<Rightarrow> None | Some fm \<Rightarrow> map_of fm ''tags'')"

definition fileTags_of :: "jvalue \<Rightarrow> jvalue list" where
  "fileTags_of v = (case v of JArray xs \<Rightarrow> xs | _ \<Rightarrow> [v])"

definition tag_equal :: "string \<Rightarrow> jvalue \<Rightarrow> bool" where
  "tag_equal tag fileTag =
     (case fileTag of JString s \<Rightarrow> toLowerCase s = toLowerCase tag | _ \<Rightarrow> False)"

definition hasMatchingTag :: "string list \<Rightarrow> jvalue list \<Rightarrow> bool" where
  "hasMatchingTag tags fileTags = list_ex (\<lambda>tag. list_ex (tag_equal tag) fileTags) tags"

fun tags_loop :: "string list \<Rightarrow> (error + ContentFile) list \<Rightarrow> ContentFile list" where
  "tags_loop tags [] = []"
| "tags_loop tags (Inl e # rs) = tags_loop tags rs"
| "tags_loop tags (Inr f # rs) =
     (if truthy (tags_field f) then
        (if hasMatchingTag tags (fileTags_of (the (tags_field f)))
         then f # tags_loop tags rs else tags_loop tags rs)
      else tags_loop tags rs)"

text \<open>\<open>sort((a, b) => b.lastModified.getTime() - a.lastModified.getTime())\<close>, stable.\<close>

definition searchByTags :: "(error + ContentFile) list \<Rightarrow> string list \<Rightarrow> ContentFile list" where
  "searchByTags loaded tags = sort_key (\<lambda>f. - lastModified f) (tags_loop tags loaded)"

fun dates_loop :: "int \<Rightarrow> int \<Rightarrow> (error + ContentFile) list \<Rightarrow> ContentFile list" where
  "dates_loop startDate endDate [] = []"
| "dates_loop startDate endDate (Inl e # rs) = dates_loop startDate endDate rs"
| "dates_loop startDate endDate (Inr f # rs) =
     (if lastModified f \<ge> startDate \<and> lastModified f \<le> endDate
      then f # dates_loop startDate endDate rs else dates_loop startDate endDate rs)"

definition searchByDateRange :: "(error + ContentFile) list \<Rightarrow> int \<Rightarrow> int \<Rightarrow> ContentFile list" where
  "searchByDateRange loaded startDate endDate =
     sort_key (\<lambda>f. - lastModified f) (dates_loop startDate endDate loaded)"

section \<open>The specification, in its own words\<close>

subsection \<open>Headings, line by line\<close>

text \<open>
  What the specification says of the heading extractor, read line by line. The lines of
  a text are the pieces between its line terminators. A heading line is 1 to 6 \<open>#\<close>,
  then whitespace, then text, that is, something that is not whitespace only. Its record has
  the number of \<open>#\<close> as level, the trimmed remainder as text and the slug of the text as id.
  A bare line is 1 to 6 \<open>#\<close> followed by nothing but whitespace.
\<close>

fun js_lines :: "string \<Rightarrow> string list" where
  "js_lines [] = [[]]"
| "js_lines (c # cs) =
     (if isLineTerminator c then [] # js_lines cs
      else (case js_lines cs of [] \<Rightarrow> [[c]] | l # ls \<Rightarrow> (c # l) # ls))"

definition hashes :: "string \<Rightarrow> nat" where
  "hashes l = length (takeWhile (\<lambda>c. c = CHR ''#'') l)"

definition heading_line :: "string \<Rightarrow> bool" where
  "heading_line l =
     (1 \<le> hashes l \<and> hashes l \<le> 6 \<and>
      (case drop (hashes l) l of
         [] \<Rightarrow> False
       | c # r \<Rightarrow> isWhiteSpace c \<and> \<not> list_all isWhiteSpace r))"

definition bare_line :: "string \<Rightarrow> bool" where
  "bare_line l = (1 \<le> hashes l \<and> hashes l \<le> 6 \<and> list_all isWhiteSpace (drop (hashes l) l))"

definition line_heading :: "string \<Rightarrow> heading" where
  "line_heading l =
     \<lparr>level = hashes l,
      text_of = trim (drop (hashes l) l),
      id_of = slug (trim (drop (hashes l) l))\<rparr>"

definition spec_headings :: "string \<Rightarrow> heading list" where
  "spec_headings doc = map line_heading (filter heading_line (js_lines doc))"

text \<open>The rest of the input at the end of a line: nothing, or a line terminator first.\<close>

definition line_end :: "string \<Rightarrow> bool" where
  "line_end r = (case r of [] \<Rightarrow> True | c # _ \<Rightarrow> isLineTerminator c)"

text \<open>The characters of a URL anchor that needs no escaping: \<open>[a-z0-9_-]\<close>.\<close>

definition slug_char :: "char \<Rightarrow> bool" where
  "slug_char c = (isLowerAscii c \<or> isDigit c \<or> c = CHR ''_'' \<or> c = CHR ''-'')"

subsection \<open>Frontmatter block\<close>

text \<open>
  A text begins with a frontmatter block when it is a line \<open>---\<close>, any text, and a line
  \<open>---\<close> with its line feed; whitespace may follow either \<open>---\<close> on its line.
\<close>

definition begins_with_block :: "string \<Rightarrow> bool" where
  "begins_with_block doc =
     (\<exists>ws1 body ws2 rest.
        doc = ''---'' @ ws1 @ ''\<newline>'' @ body @ ''\<newline>---'' @ ws2 @ ''\<newline>'' @ rest
        \<and> list_all isWhiteSpace ws1 \<and> list_all isWhiteSpace ws2)"

subsection \<open>Frontmatter values\<close>







subsection \<open>Tag filter\<close>

text \<open>The tags of a document, normalized to an array, and whether they hold one of the
  desired tags, compared case-insensitively.\<close>

definition normalized_tags :: "ContentFile \<Rightarrow> jvalue list" where
  "normalized_tags f =
     (case tags_field f of None \<Rightarrow> [] | Some (JArray xs) \<Rightarrow> xs | Some v \<Rightarrow> [v])"

definition has_tag_ci :: "string list \<Rightarrow> ContentFile \<Rightarrow> bool" where
  "has_tag_ci tags f =
     (\<exists>t\<in>set tags. \<exists>s. JString s \<in> set (normalized_tags f) \<and> toLowerCase s = toLowerCase t)"

subsection \<open>Exact-strategy score and the contract of Fuse.js\<close>

text \<open>
  A string contains the query case-insensitively when the lowercased query is a contiguous
  part of the lowercased string. The score of a document is 0.4 if its filename contains
  the query, plus 0.1 for every line of its body that does, plus 0.2 for every frontmatter
  entry whose value is a string that does, clamped to 1.
\<close>

definition contains_ci :: "string \<Rightarrow> string \<Rightarrow> bool" where
  "contains_ci s q = sublist (toLowerCase q) (toLowerCase s)"

definition name_hits :: "string \<Rightarrow> ContentFile \<Rightarrow> nat" where
  "name_hits q f = (if contains_ci (name f) q then 1 else 0)"

definition line_hits :: "string \<Rightarrow> ContentFile \<Rightarrow> nat" where
  "line_hits q f = length (filter (\<lambda>l. contains_ci l q) (split_nl (content f)))"

definition entry_matches :: "string \<Rightarrow> string \<times> jvalue \<Rightarrow> bool" where
  "entry_matches q e = (case snd e of JString s \<Rightarrow> contains_ci s q | _ \<Rightarrow> False)"

definition entry_hits :: "string \<Rightarrow> ContentFile \<Rightarrow> nat" where
  "entry_hits q f =
     (case frontmatter f of None \<Rightarrow> 0 | Some fm \<Rightarrow> length (filter (entry_matches q) fm))"


definition exact_score :: "string \<Rightarrow> ContentFile \<Rightarrow> rat" where
  "exact_score q f =
     min (4 / 10 * of_nat (name_hits q f) + 1 / 10 * of_nat (line_hits q f)
            + 2 / 10 * of_nat (entry_hits q f)) 1"




section \<open>Example documents\<close>

text \<open>Two documents last modified at 2024-01-15T00:00:00Z and 2024-02-01T00:00:00Z.\<close>

definition doc_jan15 :: ContentFile where
  "doc_jan15 =
     \<lparr>path = ''/notes/a.md'', name = ''a.md'', content = ''January'', frontmatter = None,
      lastModified = 1705276800000, size_of = 7\<rparr>"

definition doc_feb01 :: ContentFile where
  "doc_feb01 =
     \<lparr>path = ''/notes/b.md'', name = ''b.md'', content = ''February'', frontmatter = None,
      lastModified = 1706745600000, size_of = 8\<rparr>"

text \<open>Documents with a list of tags, a single tag, and an empty string as its tag.\<close>

definition doc_tutorial :: ContentFile where
  "doc_tutorial =
     \<lparr>path = ''/notes/start.md'', name = ''start.md'', content = ''Getting started'',
      frontmatter = Some [(''title'', JString ''Start''),
                          (''tags'', JArray [JString ''typescript'', JString ''tutorial''])],
      lastModified = 1705276800000, size_of = 15\<rparr>"

definition doc_scalar_tag :: ContentFile where
  "doc_scalar_tag =
     \<lparr>path = ''/notes/howto.md'', name = ''howto.md'', content = ''How to'',
      frontmatter = Some [(''tags'', JString ''Tutorial'')],
      lastModified = 1706745600000, size_of = 6\<rparr>"

definition doc_empty_tag :: ContentFile where
  "doc_empty_tag =
     \<lparr>path = ''/notes/draft.md'', name = ''draft.md'', content = ''Draft'',
      frontmatter = Some [(''tags'', JString [])],
      lastModified = 1705276800000, size_of = 5\<rparr>"

text \<open>An MDX file with a frontmatter block.\<close>

definition mdx_text :: string where
  "mdx_text = ''---\<newline>title: Notes\<newline>---\<newline>Body''"

definition mdx_stats :: Stats where
  "mdx_stats = \<lparr>mtime = 1705276800000, st_size = 26\<rparr>"




text \<open>A text file with an empty line.\<close>

definition doc_blank :: ContentFile where
  "doc_blank =
     \<lparr>path = ''/notes/n.txt'', name = ''n.txt'', content = ''a\<newline>\<newline>b'', frontmatter = None,
      lastModified = 1705276800000, size_of = 4\<rparr>"

section \<open>Verified properties\<close>

subsection \<open>Sorting by a negated key\<close>

lemma sorted_desc_sort_key:
  fixes k :: "'a \<Rightarrow> ('b :: {linordered_ab_group_add})"
  shows "sorted_wrt (\<lambda>a b. k a \<ge> k b) (sort_key (\<lambda>x. - k x) xs)"
proof -
  have "sorted (map (\<lambda>x. - k x) (sort_key (\<lambda>x. - k x) xs))"
    by (rule sorted_sort_key)
  then show ?thesis
    by (simp add: sorted_map sorted_wrt_iff_nth_less)
qed

subsection \<open>Date-range filter\<close>

lemma dates_loop_filter:
  "dates_loop s e loaded =
     filter (\<lambda>f. s \<le> lastModified f \<and> lastModified f \<le> e) (collect_files loaded)"
  by (induction loaded rule: collect_files.induct) auto

text \<open>
  Claim C7. For every list of loaded documents and every pair of timestamps, the
  date-range filter returns exactly the documents that were read and whose \<open>lastModified\<close>
  lies in \<open>[startDate, endDate]\<close>, both ends included, each as often as it was read, ordered
  by \<open>lastModified\<close> descending. With the range 2024-01-01 to 2024-01-31 (in milliseconds
  since the epoch) a document of 2024-01-15T00:00:00Z is returned and one of
  2024-02-01T00:00:00Z is not.
\<close>

theorem searchByDateRange_inclusive:
  "set (searchByDateRange loaded startDate endDate) =
     {f \<in> set (collect_files loaded). startDate \<le> lastModified f \<and> lastModified f \<le> endDate}
   \<and> mset (searchByDateRange loaded startDate endDate) =
     mset (filter (\<lambda>f. startDate \<le> lastModified f \<and> lastModified f \<le> endDate)
            (collect_files loaded))
   \<and> sorted_wrt (\<lambda>a b. lastModified a \<ge> lastModified b)
        (searchByDateRange loaded startDate endDate)
   \<and> (f \<in> set (collect_files loaded) \<and> lastModified f = 1705276800000
        \<longrightarrow> f \<in> set (searchByDateRange loaded 1704067200000 1706659200000))
   \<and> (lastModified g = 1706745600000
        \<longrightarrow> g \<notin> set (searchByDateRange loaded 1704067200000 1706659200000))"
  unfolding searchByDateRange_def dates_loop_filter
  by (auto simp: sorted_desc_sort_key)

theorem searchByDateRange_inclusive_witness:
  "doc_jan15 \<in> set (collect_files [Inr doc_feb01, Inl ReadError, Inr doc_jan15])
   \<and> lastModified doc_jan15 = 1705276800000
   \<and> lastModified doc_feb01 = 1706745600000
   \<and> doc_jan15 \<in> set (searchByDateRange [Inr doc_feb01, Inl ReadError, Inr doc_jan15]
                        1704067200000 1706659200000)
   \<and> doc_feb01 \<notin> set (searchByDateRange [Inr doc_feb01, Inl ReadError, Inr doc_jan15]
                        1704067200000 1706659200000)"
  using searchByDateRange_inclusive
          [of "[Inr doc_feb01, Inl ReadError, Inr doc_jan15]" _ _ doc_jan15 doc_feb01]
  by (simp add: doc_jan15_def doc_feb01_def)

subsection \<open>Heading extractor\<close>

lemma lt_is_ws: "isLineTerminator c \<Longrightarrow> isWhiteSpace c"
  by (auto simp: isLineTerminator_def isWhiteSpace_def)

lemma hash_not_ws: "\<not> isWhiteSpace (CHR ''#'')"
  by (simp add: isWhiteSpace_def)

lemma hash_not_lt: "\<not> isLineTerminator (CHR ''#'')"
  by (simp add: isLineTerminator_def)

lemma js_lines_nonempty: "js_lines s \<noteq> []"
  by (induction s) (auto split: list.splits)

lemma js_lines_noLT: "\<forall>c\<in>set l. \<not> isLineTerminator c \<Longrightarrow> js_lines l = [l]"
  by (induction l) auto

lemma js_lines_append:
  "\<forall>c\<in>set l. \<not> isLineTerminator c \<Longrightarrow> isLineTerminator c \<Longrightarrow>
   js_lines (l @ c # rest) = l # js_lines rest"
  by (induction l) (auto split: list.splits)

lemma scan_nobol:
  "\<forall>c\<in>set l. \<not> isLineTerminator c \<Longrightarrow> scan_headings 0 False (l @ r) = scan_headings 0 False r"
  by (induction l) auto

lemma scan_skip:
  "\<forall>c\<in>set l. \<not> isLineTerminator c \<Longrightarrow>
   scan_headings (length l) False (l @ r) = scan_headings 0 False r"
  by (induction l) auto

lemma trim_dropWhile: "trim (dropWhile isWhiteSpace r) = trim r"
  by (simp add: trim_def)

lemma takeWhile_append_stop:
  "\<exists>x\<in>set xs. \<not> P x \<Longrightarrow> takeWhile P (xs @ ys) = takeWhile P xs"
  by (induction xs) auto

lemma length_takeWhile_stop:
  "\<not> (\<forall>x\<in>set xs. P x) \<Longrightarrow> length (takeWhile P xs) < length xs"
  by (induction xs) auto

lemma dropWhile_append_stop:
  "\<exists>x\<in>set xs. \<not> P x \<Longrightarrow> dropWhile P (xs @ ys) = dropWhile P xs @ ys"
  by (induction xs) auto

lemma takeWhile_line:
  assumes "\<forall>c\<in>set l. \<not> isLineTerminator c" and "line_end r"
  shows "takeWhile (\<lambda>c. \<not> isLineTerminator c) (l @ r) = l"
  using assms by (induction l) (auto simp: line_end_def split: list.splits)

lemma takeWhile_hash_all:
  assumes "\<forall>c\<in>set l. c = CHR ''#''" and "line_end r"
  shows "takeWhile (\<lambda>c. c = CHR ''#'') (l @ r) = l"
  using assms by (induction l) (auto simp: line_end_def hash_not_lt split: list.splits)

lemma takeWhile_hash_end:
  assumes "line_end r"
  shows "takeWhile (\<lambda>c. c = CHR ''#'') r = []"
  using assms by (auto simp: line_end_def hash_not_lt split: list.splits)

lemma match_heading_line:
  assumes noLT: "\<forall>c\<in>set l. \<not> isLineTerminator c" and le: "line_end r" and nb: "\<not> bare_line l"
  shows "match_heading (l @ r) =
           (if heading_line l
            then Some (hashes l, dropWhile isWhiteSpace (drop (hashes l) l), length l)
            else None)"
proof (cases "\<forall>c\<in>set l. c = CHR ''#''")
  case True
  then have tw: "takeWhile (\<lambda>c. c = CHR ''#'') l = l"
    by simp
  have h: "hashes l = length l" by (simp only: hashes_def tw)
  have k: "length (takeWhile (\<lambda>c. c = CHR ''#'') (l @ r)) = length l"
    by (simp only: takeWhile_hash_all [OF True le])
  from nb h have out: "length l < 1 \<or> 6 < length l"
    by (cases l) (auto simp: bare_line_def)
  have nh: "\<not> heading_line l"
    using h by (simp add: heading_line_def)
  show ?thesis
    using out nh k by (auto simp: match_heading_def Let_def)
next
  case False
  then have tw: "takeWhile (\<lambda>c. c = CHR ''#'') (l @ r) = takeWhile (\<lambda>c. c = CHR ''#'') l"
    by (simp add: takeWhile_append_stop)
  then have k: "length (takeWhile (\<lambda>c. c = CHR ''#'') (l @ r)) = hashes l"
    by (simp add: hashes_def)
  from False have kl: "hashes l < length l"
    unfolding hashes_def by (rule length_takeWhile_stop)
  then obtain c r' where dr: "drop (hashes l) l = c # r'"
    by (cases "drop (hashes l) l") auto
  have dr2: "drop (hashes l) (l @ r) = c # r' @ r"
    using kl dr by simp
  show ?thesis
  proof (cases "1 \<le> hashes l \<and> hashes l \<le> 6 \<and> isWhiteSpace c")
    case False
    then show ?thesis
      using k dr dr2 by (auto simp: match_heading_def Let_def heading_line_def)
  next
    case True
    with nb dr have ex: "\<exists>x\<in>set (c # r'). \<not> isWhiteSpace x"
      by (auto simp: bare_line_def list_all_iff)
    with True have exr: "\<exists>x\<in>set r'. \<not> isWhiteSpace x" by auto
    have hl: "heading_line l"
      using True dr exr by (auto simp: heading_line_def list_all_iff)
    have w: "takeWhile isWhiteSpace ((c # r') @ r) = takeWhile isWhiteSpace (c # r')"
      using ex by (rule takeWhile_append_stop)
    have t: "dropWhile isWhiteSpace ((c # r') @ r) = dropWhile isWhiteSpace (c # r') @ r"
      using ex by (rule dropWhile_append_stop)
    have tne: "dropWhile isWhiteSpace (c # r') \<noteq> []"
      using ex by (simp add: dropWhile_eq_Nil_conv del: dropWhile.simps)
    have "set (c # r') \<subseteq> set l"
      using set_drop_subset [of "hashes l" l] dr by simp
    then have sub: "\<forall>x\<in>set (dropWhile isWhiteSpace (c # r')). \<not> isLineTerminator x"
      using noLT set_dropWhileD [of _ isWhiteSpace "c # r'"] by blast
    have g: "takeWhile (\<lambda>c. \<not> isLineTerminator c) (dropWhile isWhiteSpace (c # r') @ r)
               = dropWhile isWhiteSpace (c # r')"
      using sub le by (rule takeWhile_line)
    have len: "hashes l + length (takeWhile isWhiteSpace (c # r'))
                 + length (dropWhile isWhiteSpace (c # r')) = length l"
    proof -
      have "length (takeWhile isWhiteSpace (c # r') @ dropWhile isWhiteSpace (c # r'))
              = length (c # r')"
        by (simp only: takeWhile_dropWhile_id)
      then have "length (takeWhile isWhiteSpace (c # r')) + length (dropWhile isWhiteSpace (c # r'))
              = length (c # r')"
        by (simp only: length_append)
      moreover have "length (c # r') = length l - hashes l"
        using arg_cong [OF dr, of length] by simp
      ultimately show ?thesis using kl by simp
    qed
    have wne: "takeWhile isWhiteSpace (c # r') \<noteq> []"
      using True by simp
    show ?thesis
      unfolding match_heading_def Let_def k dr2
      using True hl w t tne g len wne dr
      by (simp del: takeWhile.simps dropWhile.simps add: append_Cons [symmetric] del: append_Cons)
  qed
qed


lemma make_heading_line:
  "make_heading (hashes l) (dropWhile isWhiteSpace (drop (hashes l) l)) = line_heading l"
  by (simp add: make_heading_def line_heading_def trim_dropWhile)

lemma scan_line_step:
  assumes noLT: "\<forall>x\<in>set l. \<not> isLineTerminator x" and lt: "isLineTerminator c"
    and nb: "\<not> bare_line l"
  shows "scan_headings 0 True (l @ c # rest) =
           (if heading_line l then [line_heading l] else []) @ scan_headings 0 True rest"
proof (cases l)
  case Nil
  have "match_heading (c # rest) = None"
    using match_heading_line [of "[]" "c # rest"] lt nb Nil
    by (simp add: line_end_def heading_line_def hashes_def)
  then show ?thesis
    using Nil lt by (simp add: heading_line_def hashes_def)
next
  case (Cons x xs)
  have le: "line_end (c # rest)" using lt by (simp add: line_end_def)
  have m: "match_heading (x # xs @ c # rest) =
             (if heading_line l
              then Some (hashes l, dropWhile isWhiteSpace (drop (hashes l) l), length l)
              else None)"
    using match_heading_line [OF noLT le nb] Cons by simp
  have nx: "\<not> isLineTerminator x" and nxs: "\<forall>y\<in>set xs. \<not> isLineTerminator y"
    using noLT Cons by auto
  have tail: "scan_headings 0 False (c # rest) = scan_headings 0 True rest"
    using lt by simp
  show ?thesis
  proof (cases "heading_line l")
    case True
    have "scan_headings 0 True (x # xs @ c # rest) =
            line_heading l # scan_headings (length xs) False (xs @ c # rest)"
      using m True nx Cons by (simp add: make_heading_line)
    also have "scan_headings (length xs) False (xs @ c # rest) = scan_headings 0 False (c # rest)"
      using nxs by (rule scan_skip)
    finally show ?thesis using True Cons tail by simp
  next
    case False
    have "scan_headings 0 True (x # xs @ c # rest) = scan_headings 0 False (xs @ c # rest)"
      using m False nx by simp
    also have "\<dots> = scan_headings 0 False (c # rest)"
      using nxs by (rule scan_nobol)
    finally show ?thesis using False Cons tail by simp
  qed
qed

lemma scan_nobol_end:
  "\<forall>c\<in>set l. \<not> isLineTerminator c \<Longrightarrow> scan_headings 0 False l = []"
  using scan_nobol [of l "[]"] by simp

lemma scan_skip_end:
  "\<forall>c\<in>set l. \<not> isLineTerminator c \<Longrightarrow> scan_headings (length l) False l = []"
  using scan_skip [of l "[]"] by simp

lemma scan_line_last:
  assumes noLT: "\<forall>x\<in>set l. \<not> isLineTerminator x" and nb: "\<not> bare_line l"
  shows "scan_headings 0 True l = (if heading_line l then [line_heading l] else [])"
proof (cases l)
  case Nil
  then show ?thesis by (simp add: heading_line_def hashes_def)
next
  case (Cons x xs)
  have le: "line_end []" by (simp add: line_end_def)
  have m: "match_heading (x # xs) =
             (if heading_line l
              then Some (hashes l, dropWhile isWhiteSpace (drop (hashes l) l), length l)
              else None)"
    using match_heading_line [OF noLT le nb] Cons by simp
  have nx: "\<not> isLineTerminator x" and nxs: "\<forall>y\<in>set xs. \<not> isLineTerminator y"
    using noLT Cons by auto
  show ?thesis
  proof (cases "heading_line l")
    case True
    have "scan_headings 0 True (x # xs) = line_heading l # scan_headings (length xs) False xs"
      using m True nx Cons by (simp add: make_heading_line)
    then show ?thesis using True Cons scan_skip_end [OF nxs] by simp
  next
    case False
    have "scan_headings 0 True (x # xs) = scan_headings 0 False xs"
      using m False nx by simp
    then show ?thesis using False Cons scan_nobol_end [OF nxs] by simp
  qed
qed

lemma lines_induct [case_names final line]:
  assumes final: "\<And>l. \<forall>c\<in>set l. \<not> isLineTerminator c \<Longrightarrow> P l"
    and line: "\<And>l c rest. \<forall>x\<in>set l. \<not> isLineTerminator x \<Longrightarrow> isLineTerminator c \<Longrightarrow>
                 P rest \<Longrightarrow> P (l @ c # rest)"
  shows "P s"
proof (induction s rule: length_induct)
  case (1 s)
  let ?l = "takeWhile (\<lambda>c. \<not> isLineTerminator c) s"
  let ?r = "dropWhile (\<lambda>c. \<not> isLineTerminator c) s"
  have noLT: "\<forall>c\<in>set ?l. \<not> isLineTerminator c"
    by (auto dest: set_takeWhileD)
  show ?case
  proof (cases ?r)
    case Nil
    then have "s = ?l" by (metis append_Nil2 takeWhile_dropWhile_id)
    then show ?thesis using final [OF noLT] by simp
  next
    case (Cons c rest)
    have lt: "isLineTerminator c"
      using hd_dropWhile [of "\<lambda>c. \<not> isLineTerminator c" s] Cons by simp
    have s: "s = ?l @ c # rest"
      using Cons by (metis takeWhile_dropWhile_id)
    then have "length rest < length s"
      by (metis add_Suc_right length_Cons length_append less_add_Suc2)
    then have "P rest" using 1 by simp
    then have "P (?l @ c # rest)" by (rule line [OF noLT lt])
    then show ?thesis using s by simp
  qed
qed

text \<open>
  In a text without bare lines the extractor is the line-by-line reading: one record per
  heading line, in order, and nothing else.
\<close>

lemma extractHeadings_lines:
  "\<forall>l\<in>set (js_lines doc). \<not> bare_line l \<Longrightarrow> extractHeadings doc = spec_headings doc"
  unfolding extractHeadings_def spec_headings_def
proof (induction doc rule: lines_induct)
  case (final l)
  then show ?case by (simp add: js_lines_noLT scan_line_last)
next
  case (line l c rest)
  then show ?case by (simp add: js_lines_append scan_line_step)
qed

subsection \<open>Heading ids\<close>

lemma of_char_toLowerChar_not_upper: "\<not> isUpperAscii (toLowerChar c)"
proof -
  have b: "(of_char c :: nat) < 256"
    by (rule nat_of_char_less_256)
  show ?thesis
    using b by (auto simp: isUpperAscii_def toLowerChar_def Let_def)
qed

lemma collapse_ws_set:
  "x \<in> set (collapse_ws b s) \<Longrightarrow> x = CHR ''-'' \<or> (x \<in> set s \<and> \<not> isWhiteSpace x)"
  by (induction b s rule: collapse_ws.induct) (auto split: if_splits)

lemma hyphen_facts: "\<not> isWhiteSpace (CHR ''-'')" "\<not> isUpperAscii (CHR ''-'')"
  by (simp_all add: isWhiteSpace_def isUpperAscii_def)

lemma slug_chars:
  assumes "c \<in> set (slug t)"
  shows "slug_char c \<and> \<not> isWhiteSpace c \<and> \<not> isUpperAscii c"
proof -
  from assms have "c = CHR ''-'' \<or>
      (c \<in> set (filter (\<lambda>c. isWordChar c \<or> isWhiteSpace c \<or> c = CHR ''-'') (toLowerCase t))
       \<and> \<not> isWhiteSpace c)"
    unfolding slug_def by (rule collapse_ws_set)
  then show ?thesis
  proof
    assume "c = CHR ''-''"
    then show ?thesis by (simp add: slug_char_def hyphen_facts)
  next
    assume a: "c \<in> set (filter (\<lambda>c. isWordChar c \<or> isWhiteSpace c \<or> c = CHR ''-'') (toLowerCase t))
       \<and> \<not> isWhiteSpace c"
    then obtain x where x: "c = toLowerChar x" by (auto simp: toLowerCase_def)
    have nu: "\<not> isUpperAscii c" using x of_char_toLowerChar_not_upper by simp
    from a have "isWordChar c \<or> c = CHR ''-''" by auto
    with nu have "slug_char c" by (auto simp: slug_char_def isWordChar_def)
    with a nu show ?thesis by simp
  qed
qed

lemma scan_headings_made:
  "h \<in> set (scan_headings n b s) \<Longrightarrow> \<exists>k g. h = make_heading k g"
  by (induction n b s rule: scan_headings.induct) (auto split: if_splits option.splits)

text \<open>
  Claim C10. For every input text, every id the heading extractor produces consists of
  lowercase ASCII letters, digits, underscores and hyphens only; in particular it holds no
  whitespace and no uppercase letter.
\<close>

theorem heading_id_anchor_safe:
  "\<forall>h\<in>set (extractHeadings doc). \<forall>c\<in>set (id_of h).
     slug_char c \<and> \<not> isWhiteSpace c \<and> \<not> isUpperAscii c"
proof (intro ballI)
  fix h c assume h: "h \<in> set (extractHeadings doc)" and c: "c \<in> set (id_of h)"
  from h obtain k g where "h = make_heading k g"
    unfolding extractHeadings_def by (blast dest: scan_headings_made)
  then have "id_of h = slug (trim g)" by (simp add: make_heading_def)
  with c show "slug_char c \<and> \<not> isWhiteSpace c \<and> \<not> isUpperAscii c"
    by (simp add: slug_chars)
qed

theorem heading_id_anchor_safe_witness:
  "extractHeadings ''## Hello, World!'' = [\<lparr>level = 2, text_of = ''Hello, World!'', id_of = ''hello-world''\<rparr>]
   \<and> list_all (\<lambda>c. slug_char c \<and> \<not> isWhiteSpace c \<and> \<not> isUpperAscii c) ''hello-world''"
proof -
  have e: "extractHeadings ''## Hello, World!'' = [\<lparr>level = 2, text_of = ''Hello, World!'', id_of = ''hello-world''\<rparr>]"
    by code_simp
  have "\<forall>c\<in>set ''hello-world''. slug_char c \<and> \<not> isWhiteSpace c \<and> \<not> isUpperAscii c"
    using heading_id_anchor_safe [of "''## Hello, World!''"] unfolding e by simp
  then have "list_all (\<lambda>c. slug_char c \<and> \<not> isWhiteSpace c \<and> \<not> isUpperAscii c) ''hello-world''"
    by (simp only: list_all_iff)
  with e show ?thesis
    by (rule conjI)
qed

subsection \<open>Heading extractor: the examples\<close>

lemma extractHeadings_example:
  "extractHeadings ''# Title\<newline>## Sub Heading'' =
     [\<lparr>level = 1, text_of = ''Title'', id_of = ''title''\<rparr>,
      \<lparr>level = 2, text_of = ''Sub Heading'', id_of = ''sub-heading''\<rparr>]"
  by code_simp

text \<open>
  Claim C8. The claim asks for a record \<open>{level, text, id}\<close> for every line that is 1 to 6
  \<open>#\<close>, whitespace and text. The text \<open>#\<close>, line feed, \<open># a\<close> has the heading line \<open># a\<close>,
  whose record is level 1, text \<open>a\<close>, id \<open>a\<close>; the extractor returns the single record of
  level 1, text \<open># a\<close> and id \<open>-a\<close> instead, because the \<open>\s+\<close> of the pattern runs over
  the line feed after the bare \<open>#\<close> and the next line becomes the heading text.
\<close>

theorem extractHeadings_bare_line_swallows_next:
  "extractHeadings ''#\<newline># a'' = [\<lparr>level = 1, text_of = ''# a'', id_of = ''-a''\<rparr>]
   \<and> js_lines ''#\<newline># a'' = [''#'', ''# a'']
   \<and> heading_line ''# a''
   \<and> line_heading ''# a'' = \<lparr>level = 1, text_of = ''a'', id_of = ''a''\<rparr>
   \<and> line_heading ''# a'' \<notin> set (extractHeadings ''#\<newline># a'')"
  by code_simp

subsection \<open>Frontmatter: no block\<close>



lemma last_index_Some: "last_index P xs = Some i \<Longrightarrow> i < length xs \<and> P (xs ! i)"
  by (induction xs arbitrary: i) (auto split: option.splits if_splits)

lemma take_takeWhile:
  "i \<le> length (takeWhile P t) \<Longrightarrow> take i t = take i (takeWhile P t)"
  by (induction t arbitrary: i) (auto simp: take_Cons split: nat.splits if_splits)

lemma takeWhile_prefix_split:
  assumes "i < length (takeWhile P t)" and "takeWhile P t ! i = c"
  shows "t = take i t @ [c] @ drop (Suc i) t" and "list_all P (take i t)"
proof -
  have le: "length (takeWhile P t) \<le> length t" by (rule length_takeWhile_le)
  with assms have it: "i < length t" by simp
  have 3: "t ! i = c"
    using assms by (simp add: takeWhile_nth)
  show "t = take i t @ [c] @ drop (Suc i) t"
    using id_take_nth_drop [OF it] 3 by simp
  have "take i t = take i (takeWhile P t)"
    using assms by (simp add: take_takeWhile)
  then have "set (take i t) \<subseteq> set (takeWhile P t)"
    using set_take_subset [of i "takeWhile P t"] by simp
  then show "list_all P (take i t)"
    by (auto simp: list_all_iff dest: set_takeWhileD)
qed

lemma close_at_sound:
  assumes "close_at s = Some rest"
  shows "\<exists>ws2. s = ''\<newline>---'' @ ws2 @ ''\<newline>'' @ rest \<and> list_all isWhiteSpace ws2"
proof -
  from assms have p: "startsWith s ''\<newline>---''"
    by (auto simp: close_at_def split: if_splits)
  then have "take 4 s = ''\<newline>---''"
    by (simp add: startsWith_def eval_nat_numeral)
  then have s: "s = ''\<newline>---'' @ drop 4 s"
    using append_take_drop_id [of 4 s] by simp
  let ?t = "drop 4 s"
  from assms p obtain i where i: "last_index (\<lambda>c. c = CHR 0x0A) (takeWhile isWhiteSpace ?t) = Some i"
    and r: "rest = drop (Suc i) ?t"
    by (auto simp: close_at_def Let_def split: option.splits)
  from last_index_Some [OF i] have il: "i < length (takeWhile isWhiteSpace ?t)"
    and lf: "takeWhile isWhiteSpace ?t ! i = CHR 0x0A" by simp_all
  from takeWhile_prefix_split [OF il lf]
  have t: "?t = take i ?t @ ''\<newline>'' @ rest" and w: "list_all isWhiteSpace (take i ?t)"
    unfolding r by simp_all
  have "s = ''\<newline>---'' @ take i ?t @ ''\<newline>'' @ rest"
    by (subst s, subst t) simp
  with w show ?thesis by blast
qed

lemma find_close_sound:
  "find_close s = Some (g, rest) \<Longrightarrow>
   \<exists>ws2. s = g @ ''\<newline>---'' @ ws2 @ ''\<newline>'' @ rest \<and> list_all isWhiteSpace ws2"
proof (induction s arbitrary: g)
  case Nil
  then show ?case by simp
next
  case (Cons c cs)
  show ?case
  proof (cases "close_at (c # cs)")
    case (Some r)
    with Cons.prems have "g = []" "r = rest" by simp_all
    with close_at_sound [OF Some] show ?thesis by simp
  next
    case None
    with Cons.prems obtain g' where f: "find_close cs = Some (g', rest)" and g: "g = c # g'"
      by (auto split: option.splits)
    from Cons.IH [OF f] g show ?thesis by auto
  qed
qed

lemma try_open_sound:
  "try_open js r = Some m \<Longrightarrow> \<exists>j\<in>set js. find_close (drop (Suc j) r) = Some m"
  by (induction js) (auto split: option.splits)

lemma match_frontmatter_sound:
  assumes "match_frontmatter doc = Some (g, rest)"
  shows "begins_with_block doc"
proof -
  from assms have p: "startsWith doc ''---''"
    by (auto simp: match_frontmatter_def split: if_splits)
  then have "take 3 doc = ''---''"
    by (simp add: startsWith_def eval_nat_numeral)
  then have d: "doc = ''---'' @ drop 3 doc"
    using append_take_drop_id [of 3 doc] by simp
  let ?r = "drop 3 doc"
  let ?w = "takeWhile isWhiteSpace ?r"
  from assms p have "try_open (rev (filter (\<lambda>j. ?w ! j = CHR 0x0A) [0..<length ?w])) ?r = Some (g, rest)"
    by (simp add: match_frontmatter_def Let_def)
  from try_open_sound [OF this] obtain j where jl: "j < length ?w" and lf: "?w ! j = CHR 0x0A"
    and f: "find_close (drop (Suc j) ?r) = Some (g, rest)"
    by auto
  from takeWhile_prefix_split [OF jl lf]
  have r: "?r = take j ?r @ ''\<newline>'' @ drop (Suc j) ?r" and w1: "list_all isWhiteSpace (take j ?r)"
    by simp_all
  from find_close_sound [OF f] obtain ws2
    where c: "drop (Suc j) ?r = g @ ''\<newline>---'' @ ws2 @ ''\<newline>'' @ rest"
      and w2: "list_all isWhiteSpace ws2"
    by blast
  have "doc = ''---'' @ take j ?r @ ''\<newline>'' @ g @ ''\<newline>---'' @ ws2 @ ''\<newline>'' @ rest"
    by (subst d, subst r, subst c) simp
  with w1 w2 show ?thesis unfolding begins_with_block_def by blast
qed

text \<open>Conversely, the match succeeds on every text that begins with a block.\<close>

lemma last_index_None: "last_index P xs = None \<longleftrightarrow> (\<forall>x\<in>set xs. \<not> P x)"
  by (induction xs) (auto split: option.splits)

lemma lf_is_ws: "isWhiteSpace (CHR 0x0A)"
  by (simp add: isWhiteSpace_def)

lemma takeWhile_ws_prefix:
  assumes "list_all isWhiteSpace ws"
  shows "takeWhile isWhiteSpace (ws @ CHR 0x0A # rest) = ws @ CHR 0x0A # takeWhile isWhiteSpace rest"
  using assms by (induction ws) (auto simp: lf_is_ws)

lemma close_at_complete:
  assumes "list_all isWhiteSpace ws2"
  shows "close_at (''\<newline>---'' @ ws2 @ ''\<newline>'' @ rest) \<noteq> None"
proof -
  have "CHR 0x0A \<in> set (takeWhile isWhiteSpace (ws2 @ CHR 0x0A # rest))"
    by (simp add: takeWhile_ws_prefix [OF assms])
  then have "last_index (\<lambda>c. c = CHR 0x0A) (takeWhile isWhiteSpace (ws2 @ CHR 0x0A # rest)) \<noteq> None"
    unfolding last_index_None by blast
  then show ?thesis
    by (auto simp: close_at_def startsWith_def Let_def)
qed

lemma find_close_complete:
  "close_at s \<noteq> None \<Longrightarrow> find_close (a @ s) \<noteq> None"
proof (induction a)
  case Nil
  then show ?case by (cases s) (auto simp: close_at_def startsWith_def)
next
  case (Cons c a)
  then show ?case by (auto split: option.splits)
qed

lemma try_open_complete:
  "j \<in> set js \<Longrightarrow> find_close (drop (Suc j) r) \<noteq> None \<Longrightarrow> try_open js r \<noteq> None"
  by (induction js) (auto split: option.splits)

lemma match_frontmatter_complete:
  assumes "begins_with_block doc"
  shows "match_frontmatter doc \<noteq> None"
proof -
  from assms obtain ws1 body ws2 rest
    where d: "doc = ''---'' @ ws1 @ ''\<newline>'' @ body @ ''\<newline>---'' @ ws2 @ ''\<newline>'' @ rest"
      and w1: "list_all isWhiteSpace ws1" and w2: "list_all isWhiteSpace ws2"
    by (auto simp: begins_with_block_def)
  let ?tail = "body @ ''\<newline>---'' @ ws2 @ ''\<newline>'' @ rest"
  let ?r = "ws1 @ CHR 0x0A # ?tail"
  let ?w = "takeWhile isWhiteSpace ?r"
  let ?j = "length ws1"
  have r: "drop 3 doc = ?r" and p: "startsWith doc ''---''"
    unfolding d by (simp_all add: startsWith_def)
  have w: "?w = ws1 @ CHR 0x0A # takeWhile isWhiteSpace ?tail"
    by (rule takeWhile_ws_prefix [OF w1])
  have jl: "?j < length ?w" and lf: "?w ! ?j = CHR 0x0A"
    unfolding w by simp_all
  have cand: "?j \<in> set (rev (filter (\<lambda>j. ?w ! j = CHR 0x0A) [0..<length ?w]))"
    using jl lf by simp
  have "close_at (''\<newline>---'' @ ws2 @ ''\<newline>'' @ rest) \<noteq> None"
    by (rule close_at_complete [OF w2])
  then have "find_close (body @ ''\<newline>---'' @ ws2 @ ''\<newline>'' @ rest) \<noteq> None"
    by (rule find_close_complete)
  then have fc: "find_close (drop (Suc ?j) ?r) \<noteq> None"
    by simp
  have "try_open (rev (filter (\<lambda>j. ?w ! j = CHR 0x0A) [0..<length ?w])) ?r \<noteq> None"
    using cand fc by (rule try_open_complete)
  then show ?thesis
    using p by (simp add: match_frontmatter_def Let_def r)
qed

lemma match_frontmatter_iff: "match_frontmatter doc \<noteq> None \<longleftrightarrow> begins_with_block doc"
  using match_frontmatter_complete [of doc] match_frontmatter_sound [of doc]
  by (cases "match_frontmatter doc") auto

lemma block_startsWith: "begins_with_block doc \<Longrightarrow> startsWith doc ''---''"
  by (auto simp: begins_with_block_def startsWith_def)

lemma block_closing_line: "begins_with_block doc \<Longrightarrow> sublist ''\<newline>---'' doc"
proof -
  assume "begins_with_block doc"
  then obtain ws1 body ws2 rest
    where "doc = (''---'' @ ws1 @ ''\<newline>'' @ body) @ ''\<newline>---'' @ (ws2 @ ''\<newline>'' @ rest)"
    by (auto simp: begins_with_block_def)
  then show ?thesis
    by (simp only: sublist_appendI)
qed

text \<open>
  Claim C4. For every input text that does not begin with a frontmatter block,
  \<open>extractFrontmatter\<close> returns the empty mapping together with the input text unchanged;
  this covers a text without a leading \<open>---\<close> and a text whose leading \<open>---\<close> is never
  closed by a later line starting with \<open>---\<close>. The function is total: there is no input on
  which it raises.
\<close>

theorem extractFrontmatter_no_block:
  "\<not> begins_with_block doc \<Longrightarrow> extractFrontmatter doc = (Map.empty, doc)"
proof -
  assume a: "\<not> begins_with_block doc"
  have "match_frontmatter doc = None"
  proof (cases "match_frontmatter doc")
    case None
    then show ?thesis .
  next
    case (Some m)
    then have "begins_with_block doc"
      using match_frontmatter_sound [of doc "fst m" "snd m"] by simp
    with a show ?thesis by simp
  qed
  then show ?thesis by (simp add: extractFrontmatter_def)
qed

theorem extractFrontmatter_no_block_witness:
  "\<not> begins_with_block ''# Title\<newline>---\<newline>''
   \<and> extractFrontmatter ''# Title\<newline>---\<newline>'' = (Map.empty, ''# Title\<newline>---\<newline>'')
   \<and> \<not> begins_with_block ''---\<newline>title: x\<newline>body''
   \<and> extractFrontmatter ''---\<newline>title: x\<newline>body'' = (Map.empty, ''---\<newline>title: x\<newline>body'')"
proof -
  have "\<not> startsWith ''# Title\<newline>---\<newline>'' ''---''"
    by (simp add: startsWith_def)
  then have h1: "\<not> begins_with_block ''# Title\<newline>---\<newline>''"
    using block_startsWith by blast
  have "\<not> sublist ''\<newline>---'' ''---\<newline>title: x\<newline>body''"
    by (simp add: sublist_Cons_right)
  then have h2: "\<not> begins_with_block ''---\<newline>title: x\<newline>body''"
    using block_closing_line by blast
  show ?thesis
    using h1 h2 extractFrontmatter_no_block [OF h1] extractFrontmatter_no_block [OF h2]
    by (intro conjI)
qed

subsection \<open>Frontmatter: value inference\<close>




















subsection \<open>Frontmatter: repeated keys\<close>











subsection \<open>Document loader\<close>

lemma mdx_not_md: "endsWith ''/notes/guide.mdx'' ''.md'' = False"
  by code_simp
lemma mdx_not_markdown: "endsWith ''/notes/guide.mdx'' ''.markdown'' = False"
  by code_simp
lemma mdx_isMarkdownFile: "isMarkdownFile ''/notes/guide.mdx''"
  by code_simp
lemma mdx_basename: "basename ''/notes/guide.mdx'' = ''guide.mdx''"
  by code_simp
lemma mdx_match: "match_frontmatter mdx_text = Some (''title: Notes'', ''Body'')"
  unfolding mdx_text_def by code_simp

text \<open>For a \<open>.md\<close> file the loader hands the text to the frontmatter library and keeps
  what it returns.\<close>

lemma md_ends: "endsWith ''/notes/guide.md'' ''.md''"
  by code_simp

lemma readContentFile_md_uses_matter:
  "readContentFile matter [''/notes/guide.md'' \<mapsto> mdx_text] [''/notes/guide.md'' \<mapsto> mdx_stats]
     ''/notes/guide.md''
   = Inr \<lparr>path = ''/notes/guide.md'', name = ''guide.md'', content = snd (matter mdx_text),
          frontmatter = Some (fst (matter mdx_text)), lastModified = 1705276800000, size_of = 26\<rparr>"
proof -
  have b: "basename ''/notes/guide.md'' = ''guide.md''"
    by code_simp
  show ?thesis
    by (simp add: readContentFile_def md_ends b mdx_stats_def Let_def)
qed

text \<open>
  Claim C5. The claim lists the markdown-extended extension among those for which the
  loader separates the frontmatter from the body. For the file \<open>/notes/guide.mdx\<close>, which
  \<open>isMarkdownFile\<close> counts as markdown, \<open>readContentFile\<close> tests \<open>.md\<close> and \<open>.markdown\<close>
  only: whatever the frontmatter library would return, the document has no frontmatter
  and its body is the whole text, the delimiter block first.
\<close>

theorem readContentFile_mdx_keeps_frontmatter:
  "readContentFile matter [''/notes/guide.mdx'' \<mapsto> mdx_text] [''/notes/guide.mdx'' \<mapsto> mdx_stats]
     ''/notes/guide.mdx''
   = Inr \<lparr>path = ''/notes/guide.mdx'', name = ''guide.mdx'', content = mdx_text,
          frontmatter = None, lastModified = 1705276800000, size_of = 26\<rparr>
   \<and> isMarkdownFile ''/notes/guide.mdx''
   \<and> startsWith mdx_text ''---\<newline>title: Notes\<newline>---\<newline>''
   \<and> snd (extractFrontmatter mdx_text) = ''Body''"
proof -
  have s: "startsWith mdx_text ''---\<newline>title: Notes\<newline>---\<newline>''"
    unfolding mdx_text_def by code_simp
  show ?thesis
    by (simp add: readContentFile_def mdx_not_md mdx_not_markdown mdx_isMarkdownFile mdx_basename mdx_stats_def s extractFrontmatter_def mdx_match)
qed

subsection \<open>Tag filter\<close>

lemma tag_equal_iff: "tag_equal t v \<longleftrightarrow> (\<exists>s. v = JString s \<and> toLowerCase s = toLowerCase t)"
  by (cases v) (auto simp: tag_equal_def)

lemma fileTags_normalized: "tags_field f = Some v \<Longrightarrow> fileTags_of v = normalized_tags f"
  by (cases v) (auto simp: fileTags_of_def normalized_tags_def)

lemma hasMatchingTag_iff:
  assumes "truthy (tags_field f)"
  shows "hasMatchingTag tags (fileTags_of (the (tags_field f))) \<longleftrightarrow> has_tag_ci tags f"
proof -
  from assms obtain v where v: "tags_field f = Some v"
    by (cases "tags_field f") auto
  show ?thesis
    unfolding hasMatchingTag_def has_tag_ci_def list_ex_iff v option.sel fileTags_normalized [OF v]
    by (auto simp: tag_equal_iff)
qed

lemma tags_loop_filter:
  "tags_loop tags loaded =
     filter (\<lambda>f. truthy (tags_field f) \<and> has_tag_ci tags f) (collect_files loaded)"
  by (induction loaded rule: collect_files.induct) (auto simp: hasMatchingTag_iff)

text \<open>
  Claim C6, amended. For every list of loaded documents and every list of desired tags,
  the tag filter returns exactly the documents that were read, whose \<open>tags\<close> field is truthy
  (so neither absent nor the empty string) and, normalized to an array even when it is a
  single scalar, holds a string equal to one of the desired tags up to case; each as often
  as it was read, ordered by \<open>lastModified\<close> descending, as plain documents without a
  score. The desired tag \<open>Tutorial\<close> selects a document with the stored tag \<open>tutorial\<close>.
\<close>

theorem searchByTags_filter:
  "set (searchByTags loaded tags) =
     {f \<in> set (collect_files loaded). truthy (tags_field f) \<and> has_tag_ci tags f}
   \<and> mset (searchByTags loaded tags) =
       mset (filter (\<lambda>f. truthy (tags_field f) \<and> has_tag_ci tags f) (collect_files loaded))
   \<and> sorted_wrt (\<lambda>a b. lastModified a \<ge> lastModified b) (searchByTags loaded tags)
   \<and> (f \<in> set (collect_files loaded) \<and> JString ''tutorial'' \<in> set (normalized_tags f)
        \<longrightarrow> f \<in> set (searchByTags loaded [''Tutorial'']))"
proof -
  have low: "toLowerCase ''tutorial'' = toLowerCase ''Tutorial''"
    by code_simp
  have tr: "JString ''tutorial'' \<in> set (normalized_tags f) \<Longrightarrow> truthy (tags_field f)"
    by (cases "tags_field f"; cases "the (tags_field f)") (auto simp: normalized_tags_def)
  have ex: "JString ''tutorial'' \<in> set (normalized_tags f) \<Longrightarrow> has_tag_ci [''Tutorial''] f"
    unfolding has_tag_ci_def using low by auto
  show ?thesis
    unfolding searchByTags_def tags_loop_filter
    using tr ex by (auto simp: sorted_desc_sort_key)
qed

lemma tutorial_fields:
  "tags_field doc_tutorial = Some (JArray [JString ''typescript'', JString ''tutorial''])"
  "tags_field doc_scalar_tag = Some (JString ''Tutorial'')"
  "tags_field doc_empty_tag = Some (JString [])"
  by (simp_all add: tags_field_def doc_tutorial_def doc_scalar_tag_def doc_empty_tag_def)

theorem searchByTags_filter_witness:
  "doc_tutorial \<in> set (collect_files [Inr doc_tutorial, Inl ReadError, Inr doc_scalar_tag])
   \<and> JString ''tutorial'' \<in> set (normalized_tags doc_tutorial)
   \<and> doc_tutorial \<in> set (searchByTags [Inr doc_tutorial, Inl ReadError, Inr doc_scalar_tag] [''Tutorial''])"
proof -
  have a: "doc_tutorial \<in> set (collect_files [Inr doc_tutorial, Inl ReadError, Inr doc_scalar_tag])"
    by simp
  have b: "JString ''tutorial'' \<in> set (normalized_tags doc_tutorial)"
    by (simp add: normalized_tags_def tutorial_fields)
  from searchByTags_filter
         [of "[Inr doc_tutorial, Inl ReadError, Inr doc_scalar_tag]" "[''Tutorial'']" doc_tutorial] a b
  show ?thesis
    by blast
qed

text \<open>
  Claim C6 as it is stated fails for the desired tag that is the empty string and a
  document whose \<open>tags\<close> field is the empty string: normalized, the field holds the desired
  tag, but the guard \<open>if (file.frontmatter?.tags)\<close> passes the document over.
\<close>

theorem searchByTags_empty_tag_counterexample:
  "has_tag_ci [[]] doc_empty_tag
   \<and> doc_empty_tag \<in> set (collect_files [Inr doc_empty_tag])
   \<and> searchByTags [Inr doc_empty_tag] [[]] = []"
proof -
  have "has_tag_ci [[]] doc_empty_tag"
    by (simp add: has_tag_ci_def normalized_tags_def tutorial_fields)
  then show ?thesis
    by (simp add: searchByTags_def tutorial_fields)
qed

lemma searchByTags_example_order:
  "map path (searchByTags [Inr doc_tutorial, Inl ReadError, Inr doc_scalar_tag, Inr doc_empty_tag] [''TUTORIAL''])
     = [''/notes/howto.md'', ''/notes/start.md'']"
  by code_simp

subsection \<open>Exact strategy: the score\<close>

lemma toLowerCase_Nil_iff: "toLowerCase q = [] \<longleftrightarrow> q = []"
  by (simp add: toLowerCase_def)














lemma searchNotes_fuzzy:
  assumes "searchNotes fuse loaded opts = Inr rs" and "fuzzy opts"
  shows "rs = performFuzzySearch fuse (collect_files loaded) (query opts) (maxResults opts) True"
  using assms
  by (auto simp: searchNotes_def parseWithSchema_def Let_def split: if_splits)







text \<open>
  The check of the query by \<open>searchNotes\<close> matters: \<open>performExactSearch\<close> itself, given the
  empty query, passes over the empty lines of the body (\<open>line && ...\<close>), although every
  line contains the empty string.
\<close>

lemma blank_split: "split_nl ''a\<newline>\<newline>b'' = [''a'', [], ''b'']"
  by code_simp

lemma blank_file:
  "exact_file [] True doc_blank
     = Some \<lparr>file_of = doc_blank, score = 6 / 10,
              matches = [''Filename: n.txt'', ''Line 1: a'', ''Line 3: b'']\<rparr>"
  unfolding doc_blank_def by code_simp

lemma exact_empty_query:
  "map score (performExactSearch [doc_blank] [] 10 True) = [6 / 10]
   \<and> exact_score [] doc_blank = 7 / 10"
proof -
  have 1: "map score (performExactSearch [doc_blank] [] 10 True) = [6 / 10]"
    by (simp add: performExactSearch_def toLowerCase_def blank_file slice0_def)
  have 2: "exact_score [] doc_blank = 7 / 10"
    by (simp add: exact_score_def name_hits_def line_hits_def entry_hits_def contains_ci_def
        toLowerCase_def doc_blank_def blank_split)
  from 1 2 show ?thesis
    by (rule conjI)
qed

subsection \<open>Both strategies: range and order of the scores\<close>

















end
